theory Spec2Isabelle
  imports Main "HOL-Library.Word"
begin

unbundle bit_operations_syntax

section \<open>The configuration of zaproll and its normalisation\<close>

text \<open>
  Go's \<open>int64\<close> is a 64-bit two's-complement integer: \<open>*\<close> and \<open>+\<close> wrap around and never
  trap, comparisons read the value as signed (\<open>sint\<close>). Go's \<open>int\<close> (the type of
  \<open>MaxBackups\<close>) is 64 bits wide on the 64-bit targets; the only operations on it are a
  signed comparison with 0 and an assignment of the constant 4.
\<close>

type_synonym int64 = "64 word"

text \<open>The struct \<open>Config\<close>, field by field.\<close>

record Config =
  OutputPath :: string
  MaxSize :: int64
  MaxBackups :: int64
  LocalTime :: bool
  PerWriteSize :: int64
  PerSyncSize :: int64
  Developed :: bool

text \<open>The constants \<open>kb\<close> and \<open>mb\<close>, and the package-level defaults.\<close>

definition kb :: int64 where
  "kb = 1024"

definition mb :: int64 where
  "mb = 1024 * kb"

definition defaultPerWriteSize :: int64 where
  "defaultPerWriteSize = 64 * kb"

definition defaultPerSyncSize :: int64 where
  "defaultPerSyncSize = 16 * mb"

definition defaultMaxSize :: int64 where
  "defaultMaxSize = 128 * mb"

definition defaultMaxBackups :: int64 where
  "defaultMaxBackups = 4"

text \<open>\<open>const pageSize = 1 << 12\<close> and \<open>alignToPage\<close>; Go's \<open>x &^ y\<close> is \<open>x AND NOT y\<close>.\<close>

definition pageSize :: int64 where
  "pageSize = push_bit 12 1"

definition alignToPage :: "int64 \<Rightarrow> int64" where
  "alignToPage n = (n + pageSize - 1) AND NOT (pageSize - 1)"

text \<open>
  \<open>Config.adjust\<close> mutates the receiver in three consecutive stages, modelled as three
  functions from the configuration before to the configuration after.

  The first stage is the choice of the units and the four \<open>if\<close> statements that replace a
  value \<open>\<le> 0\<close> by its default and multiply a positive size by its unit.
\<close>

definition convert :: "Config \<Rightarrow> Config" where
  "convert c =
    (let (k, m) = (if Developed c then (1, 1) else (kb, mb));
         c = (if sint (MaxSize c) \<le> 0 then c\<lparr>MaxSize := defaultMaxSize\<rparr>
              else c\<lparr>MaxSize := MaxSize c * m\<rparr>);
         c = (if sint (MaxBackups c) \<le> 0 then c\<lparr>MaxBackups := defaultMaxBackups\<rparr>
              else c);
         c = (if sint (PerWriteSize c) \<le> 0 then c\<lparr>PerWriteSize := defaultPerWriteSize\<rparr>
              else c\<lparr>PerWriteSize := PerWriteSize c * k\<rparr>);
         c = (if sint (PerSyncSize c) \<le> 0 then c\<lparr>PerSyncSize := defaultPerSyncSize\<rparr>
              else c\<lparr>PerSyncSize := PerSyncSize c * m\<rparr>)
     in c)"

text \<open>The second stage raises a sync size below twice the write size to twice the write size.\<close>

definition clampSync :: "Config \<Rightarrow> Config" where
  "clampSync c =
    (if sint (PerSyncSize c) < sint (2 * PerWriteSize c)
     then c\<lparr>PerSyncSize := 2 * PerWriteSize c\<rparr> else c)"

text \<open>The third stage aligns the three sizes, in the order of the source.\<close>

definition alignSizes :: "Config \<Rightarrow> Config" where
  "alignSizes c =
    (let c = c\<lparr>MaxSize := alignToPage (MaxSize c)\<rparr>;
         c = c\<lparr>PerWriteSize := alignToPage (PerWriteSize c)\<rparr>;
         c = c\<lparr>PerSyncSize := alignToPage (PerSyncSize c)\<rparr>
     in c)"

text \<open>The second and third stage run only when \<open>Developed\<close> is false.\<close>

definition adjust :: "Config \<Rightarrow> Config" where
  "adjust c =
    (let c = convert c
     in if \<not> Developed c then alignSizes (clampSync c) else c)"

section \<open>Notions used to state the properties\<close>

text \<open>\<open>r\<close> is \<open>n\<close> rounded up to the nearest multiple of 4096, both read as signed values.\<close>

definition roundsUp :: "int64 \<Rightarrow> int64 \<Rightarrow> bool" where
  "roundsUp n r = (sint r mod 4096 = 0 \<and> sint n \<le> sint r \<and> sint r < sint n + 4096)"

section \<open>Example configurations\<close>

definition allZero :: Config where
  "allZero = \<lparr>OutputPath = ''a.log'', MaxSize = 0, MaxBackups = 0, LocalTime = False,
     PerWriteSize = 0, PerSyncSize = 0, Developed = False\<rparr>"

definition allNegative :: Config where
  "allNegative = \<lparr>OutputPath = ''a.log'', MaxSize = - 1, MaxBackups = - 3, LocalTime = True,
     PerWriteSize = - 5, PerSyncSize = - 7, Developed = False\<rparr>"

definition relaxedTiny :: Config where
  "relaxedTiny = \<lparr>OutputPath = ''a.log'', MaxSize = 9, MaxBackups = 2, LocalTime = False,
     PerWriteSize = 3, PerSyncSize = 5, Developed = True\<rparr>"

definition oddWrite :: Config where
  "oddWrite = \<lparr>OutputPath = ''a.log'', MaxSize = 0, MaxBackups = 0, LocalTime = False,
     PerWriteSize = 513, PerSyncSize = 1, Developed = False\<rparr>"

definition typical :: Config where
  "typical = \<lparr>OutputPath = ''a.log'', MaxSize = 256, MaxBackups = 8, LocalTime = True,
     PerWriteSize = 128, PerSyncSize = 32, Developed = False\<rparr>"

definition smallMaxSize :: Config where
  "smallMaxSize = \<lparr>OutputPath = ''a.log'', MaxSize = 1, MaxBackups = 0, LocalTime = False,
     PerWriteSize = 2048, PerSyncSize = 1, Developed = False\<rparr>"

definition hugeMaxSize :: Config where
  "hugeMaxSize = \<lparr>OutputPath = ''a.log'', MaxSize = 17592186044416, MaxBackups = 0,
     LocalTime = False, PerWriteSize = 0, PerSyncSize = 0, Developed = False\<rparr>"

definition hugeWrite :: Config where
  "hugeWrite = \<lparr>OutputPath = ''a.log'', MaxSize = 0, MaxBackups = 0, LocalTime = False,
     PerWriteSize = 9007199254740991, PerSyncSize = 0, Developed = False\<rparr>"

definition kiloWrite :: Config where
  "kiloWrite = \<lparr>OutputPath = ''a.log'', MaxSize = 0, MaxBackups = 0, LocalTime = False,
     PerWriteSize = 1, PerSyncSize = 0, Developed = False\<rparr>"

definition wrapDouble :: Config where
  "wrapDouble = \<lparr>OutputPath = ''a.log'', MaxSize = 0, MaxBackups = 0, LocalTime = False,
     PerWriteSize = 4503599627370496, PerSyncSize = 0, Developed = False\<rparr>"

definition relaxedScenario :: Config where
  "relaxedScenario = \<lparr>OutputPath = ''a.log'', MaxSize = 9, MaxBackups = 2, LocalTime = False,
     PerWriteSize = 3, PerSyncSize = 6, Developed = True\<rparr>"

definition hugeSync :: Config where
  "hugeSync = \<lparr>OutputPath = ''a.log'', MaxSize = 0, MaxBackups = 0, LocalTime = False,
     PerWriteSize = 0, PerSyncSize = 8796093022208, Developed = False\<rparr>"

section \<open>Auxiliary facts\<close>

subsection \<open>The stages, field by field\<close>

lemmas consts_defs = kb_def mb_def defaultMaxSize_def defaultMaxBackups_def
  defaultPerWriteSize_def defaultPerSyncSize_def

lemmas stages_defs = convert_def clampSync_def alignSizes_def adjust_def

lemma alignToPage_numeral: "alignToPage n = (n + 4095) AND NOT 4095"
  by (simp add: alignToPage_def pageSize_def add.commute)

lemma convert_frame:
  "OutputPath (convert c) = OutputPath c" "LocalTime (convert c) = LocalTime c"
  "Developed (convert c) = Developed c"
  by (simp_all add: convert_def)

lemma convert_MaxSize:
  "MaxSize (convert c) = (if sint (MaxSize c) \<le> 0 then defaultMaxSize
     else MaxSize c * (if Developed c then 1 else mb))"
  by (simp add: convert_def)

lemma convert_MaxBackups:
  "MaxBackups (convert c) = (if sint (MaxBackups c) \<le> 0 then defaultMaxBackups
     else MaxBackups c)"
  by (simp add: convert_def)

lemma convert_PerWriteSize:
  "PerWriteSize (convert c) = (if sint (PerWriteSize c) \<le> 0 then defaultPerWriteSize
     else PerWriteSize c * (if Developed c then 1 else kb))"
  by (simp add: convert_def)

lemma convert_PerSyncSize:
  "PerSyncSize (convert c) = (if sint (PerSyncSize c) \<le> 0 then defaultPerSyncSize
     else PerSyncSize c * (if Developed c then 1 else mb))"
  by (simp add: convert_def)

lemma adjust_Developed: "Developed c \<Longrightarrow> adjust c = convert c"
  by (simp add: adjust_def convert_frame)

lemma adjust_not_Developed: "\<not> Developed c \<Longrightarrow> adjust c = alignSizes (clampSync (convert c))"
  by (simp add: adjust_def convert_frame)

lemma clampSync_fields:
  "OutputPath (clampSync c) = OutputPath c" "LocalTime (clampSync c) = LocalTime c"
  "Developed (clampSync c) = Developed c" "MaxSize (clampSync c) = MaxSize c"
  "MaxBackups (clampSync c) = MaxBackups c" "PerWriteSize (clampSync c) = PerWriteSize c"
  by (simp_all add: clampSync_def)

lemma alignSizes_fields:
  "OutputPath (alignSizes c) = OutputPath c" "LocalTime (alignSizes c) = LocalTime c"
  "Developed (alignSizes c) = Developed c" "MaxBackups (alignSizes c) = MaxBackups c"
  "MaxSize (alignSizes c) = alignToPage (MaxSize c)"
  "PerWriteSize (alignSizes c) = alignToPage (PerWriteSize c)"
  "PerSyncSize (alignSizes c) = alignToPage (PerSyncSize c)"
  by (simp_all add: alignSizes_def)

lemma convert_negative:
  "sint (MaxSize c) < 0 \<Longrightarrow> convert (c\<lparr>MaxSize := 0\<rparr>) = convert c"
  "sint (MaxBackups c) < 0 \<Longrightarrow> convert (c\<lparr>MaxBackups := 0\<rparr>) = convert c"
  "sint (PerWriteSize c) < 0 \<Longrightarrow> convert (c\<lparr>PerWriteSize := 0\<rparr>) = convert c"
  "sint (PerSyncSize c) < 0 \<Longrightarrow> convert (c\<lparr>PerSyncSize := 0\<rparr>) = convert c"
  by (simp_all add: convert_def)

lemma adjust_negative:
  "sint (MaxSize c) < 0 \<Longrightarrow> adjust (c\<lparr>MaxSize := 0\<rparr>) = adjust c"
  "sint (MaxBackups c) < 0 \<Longrightarrow> adjust (c\<lparr>MaxBackups := 0\<rparr>) = adjust c"
  "sint (PerWriteSize c) < 0 \<Longrightarrow> adjust (c\<lparr>PerWriteSize := 0\<rparr>) = adjust c"
  "sint (PerSyncSize c) < 0 \<Longrightarrow> adjust (c\<lparr>PerSyncSize := 0\<rparr>) = adjust c"
  by (simp_all only: adjust_def convert_negative)

lemma adjust_MaxBackups: "MaxBackups (adjust c) = MaxBackups (convert c)"
  by (cases "Developed c")
    (simp_all add: adjust_Developed adjust_not_Developed alignSizes_fields clampSync_fields)

subsection \<open>Alignment on signed values\<close>

lemma alignToPage_mask: "alignToPage n = (n + mask 12) AND NOT (mask 12)"
  by (simp add: alignToPage_def pageSize_def mask_eq_exp_minus_1 add.commute)

lemma int_and_not_mask: "(k::int) AND NOT (mask n) = k div 2 ^ n * 2 ^ n"
proof -
  have "k AND NOT (mask n) = push_bit n (drop_bit n k)"
    by (rule bit_eqI) (auto simp add: bit_simps)
  then show ?thesis
    by (simp add: push_bit_eq_mult drop_bit_eq_div)
qed

lemma sint_alignToPage:
  assumes "sint n \<le> 2 ^ 63 - 4096"
  shows "sint (alignToPage n) = (sint n + 4095) div 4096 * 4096"
proof -
  have lo: "- (2 ^ 63) \<le> sint n" using sint_ge [of n] by simp
  have "sint (n + mask 12) = sint n + 4095"
    using assms lo by (simp add: sint_word_ariths signed_take_bit_int_eq_self mask_eq_exp_minus_1)
  moreover have "sint (NOT (mask 12) :: int64) = NOT (mask 12)"
    by (simp add: mask_eq_exp_minus_1)
  ultimately have "sint (alignToPage n) = (sint n + 4095) AND NOT (mask 12)"
    unfolding alignToPage_mask by (simp only: signed_and_eq)
  then show ?thesis
    by (simp only: int_and_not_mask) simp
qed

lemma sint_alignToPage_mod: "sint (alignToPage n) mod 4096 = 0"
proof -
  have "sint (NOT (mask 12) :: int64) = NOT (mask 12)"
    by (simp add: mask_eq_exp_minus_1)
  then have "sint (alignToPage n) = sint (n + mask 12) AND NOT (mask 12)"
    unfolding alignToPage_mask by (simp only: signed_and_eq)
  then show ?thesis
    by (simp only: int_and_not_mask) simp
qed

lemma sint_mult_in_range:
  fixes a b :: int64
  assumes "- (2 ^ 63) \<le> sint a * sint b" "sint a * sint b < 2 ^ 63"
  shows "sint (a * b) = sint a * sint b"
  using assms by (simp add: sint_word_ariths signed_take_bit_int_eq_self)

lemma sint_units: "sint kb = 1024" "sint mb = 1048576"
  by (simp_all add: kb_def mb_def)

lemma sint_defaults:
  "sint defaultMaxSize = 134217728" "sint defaultPerWriteSize = 65536"
  "sint defaultPerSyncSize = 16777216"
  by (simp_all add: consts_defs)

lemma sint_times_mb:
  assumes "0 < sint x" "sint x < 2 ^ 43"
  shows "sint (x * mb) = sint x * 1048576"
proof -
  have "sint (x * mb) = sint x * sint mb"
    using assms by (intro sint_mult_in_range) (simp_all add: sint_units)
  then show ?thesis by (simp add: sint_units)
qed

lemma sint_times_kb:
  assumes "0 < sint x" "sint x < 2 ^ 52 - 1"
  shows "sint (x * kb) = sint x * 1024"
proof -
  have "sint (x * kb) = sint x * sint kb"
    using assms by (intro sint_mult_in_range) (simp_all add: sint_units)
  then show ?thesis by (simp add: sint_units)
qed

lemma sint_double:
  fixes x :: int64
  assumes "- (2 ^ 62) \<le> sint x" "sint x < 2 ^ 62"
  shows "sint (2 * x) = 2 * sint x"
proof -
  have "sint (2 * x) = sint (2 :: int64) * sint x"
    using assms by (intro sint_mult_in_range) simp_all
  then show ?thesis by simp
qed

lemma convert_MaxSize_in_range:
  assumes "\<not> Developed c" "sint (MaxSize c) < 2 ^ 43"
  shows "0 < sint (MaxSize (convert c))" "sint (MaxSize (convert c)) \<le> 2 ^ 63 - 4096"
    "sint (MaxSize (convert c)) mod 4096 = 0"
  using assms
  by (simp_all add: convert_MaxSize sint_defaults sint_times_mb)

lemma convert_PerWriteSize_in_range:
  assumes "\<not> Developed c" "sint (PerWriteSize c) < 2 ^ 52 - 1"
  shows "0 < sint (PerWriteSize (convert c))"
    "2 * sint (PerWriteSize (convert c)) \<le> 2 ^ 63 - 4096"
  using assms
  by (simp_all add: convert_PerWriteSize sint_defaults sint_times_kb)

lemma roundsUp_alignToPage:
  assumes "sint n \<le> 2 ^ 63 - 4096"
  shows "roundsUp n (alignToPage n)"
proof -
  let ?k = "sint n + 4095"
  have "sint (alignToPage n) = ?k div 4096 * 4096"
    using assms by (rule sint_alignToPage)
  also have "\<dots> = ?k - ?k mod 4096"
    by (simp add: minus_mod_eq_div_mult)
  finally have r: "sint (alignToPage n) = ?k - ?k mod 4096" .
  have "0 \<le> ?k mod 4096" "?k mod 4096 < 4096"
    by simp_all
  with r have "sint n \<le> sint (alignToPage n)" "sint (alignToPage n) < sint n + 4096"
    by linarith+
  then show ?thesis
    by (simp add: roundsUp_def sint_alignToPage_mod)
qed

lemma alignToPage_mono:
  assumes "sint a \<le> sint b" "sint b \<le> 2 ^ 63 - 4096"
  shows "sint (alignToPage a) \<le> sint (alignToPage b)"
proof -
  have "sint (alignToPage a) = (sint a + 4095) div 4096 * 4096"
    using assms by (intro sint_alignToPage) simp
  moreover have "sint (alignToPage b) = (sint b + 4095) div 4096 * 4096"
    using assms by (intro sint_alignToPage) simp
  moreover have "(sint a + 4095) div 4096 \<le> (sint b + 4095) div 4096"
    using assms(1) by (intro zdiv_mono1) simp_all
  ultimately show ?thesis by simp
qed

lemma alignToPage_aligned:
  assumes "n AND mask 12 = 0"
  shows "alignToPage n = n"
proof -
  have "n + mask 12 = n OR mask 12"
    using assms by (rule disjunctive_add_eq_or)
  moreover have "(n OR mask 12) AND NOT (mask 12) = n AND NOT (mask 12)"
    by (rule bit_eqI) (auto simp add: bit_simps)
  moreover have "n AND NOT (mask 12) = n"
  proof (rule bit_eqI)
    fix k
    have "bit (n AND mask 12) k = bit (0 :: int64) k" using assms by simp
    then show "bit (n AND NOT (mask 12)) k = bit n k"
      by (auto simp add: bit_simps dest: bit_imp_le_length)
  qed
  ultimately show ?thesis
    by (simp add: alignToPage_mask)
qed

lemma times_mb_push_bit: "x * mb = push_bit 20 x"
  by (simp add: mb_def kb_def push_bit_eq_mult)

lemma alignToPage_push_bit: "alignToPage (push_bit 20 x) = push_bit 20 x"
proof (rule alignToPage_aligned)
  show "push_bit 20 x AND mask 12 = 0"
    by (rule bit_eqI) (simp add: bit_simps)
qed

lemma push_bit_fixed:
  fixes x :: int64
  assumes "push_bit 20 x = x"
  shows "x = 0"
proof (rule bit_eqI)
  fix n
  have "\<not> bit x n"
  proof (induction n rule: less_induct)
    case (less n)
    show ?case
    proof
      assume "bit x n"
      then have "bit (push_bit 20 x) n" using assms by simp
      then have "20 \<le> n \<and> bit x (n - 20)" by (simp add: bit_push_bit_iff)
      then show False using less [of "n - 20"] by auto
    qed
  qed
  then show "bit x n = bit (0::int64) n" by simp
qed

lemma adjust_sizes_not_Developed:
  assumes "\<not> Developed c"
  shows "MaxSize (adjust c) = alignToPage (MaxSize (convert c))"
    "PerWriteSize (adjust c) = alignToPage (PerWriteSize (convert c))"
    "PerSyncSize (adjust c) = alignToPage (PerSyncSize (clampSync (convert c)))"
  using assms by (simp_all add: adjust_not_Developed alignSizes_fields clampSync_fields)

lemma alignToPage_convert_MaxSize:
  assumes "\<not> Developed c"
  shows "alignToPage (MaxSize (convert c)) = MaxSize (convert c)"
  using assms
  by (simp add: convert_MaxSize times_mb_push_bit alignToPage_push_bit)
    (simp add: consts_defs alignToPage_numeral)

lemma adjust_MaxSize: "MaxSize (adjust c) = MaxSize (convert c)"
  by (cases "Developed c")
    (simp_all add: adjust_Developed adjust_sizes_not_Developed alignToPage_convert_MaxSize)

lemma sint_convert_MaxSize:
  assumes "\<not> Developed c"
  shows "sint (MaxSize (convert c)) mod 4096 = 0" "sint (MaxSize (convert c)) \<le> 2 ^ 63 - 4096"
proof -
  have "sint (alignToPage (MaxSize (convert c))) mod 4096 = 0"
    by (rule sint_alignToPage_mod)
  then show m: "sint (MaxSize (convert c)) mod 4096 = 0"
    using assms by (simp add: alignToPage_convert_MaxSize)
  have lt: "sint (MaxSize (convert c)) < 2 ^ 63"
    using sint_lt [of "MaxSize (convert c)"] by simp
  from m have "4096 dvd sint (MaxSize (convert c))"
    by (simp add: mod_eq_0_iff_dvd)
  then obtain j where j: "sint (MaxSize (convert c)) = 4096 * j" ..
  with lt have "j < 2 ^ 51" by simp
  then have "4096 * j \<le> 2 ^ 63 - 4096" by simp
  with j show "sint (MaxSize (convert c)) \<le> 2 ^ 63 - 4096" by simp
qed

lemma sint_alignToPage_floor:
  "sint (alignToPage n) = sint (n + mask 12) div 4096 * 4096"
proof -
  have "sint (NOT (mask 12) :: int64) = NOT (mask 12)"
    by (simp add: mask_eq_exp_minus_1)
  then have "sint (alignToPage n) = sint (n + mask 12) AND NOT (mask 12)"
    unfolding alignToPage_mask by (simp only: signed_and_eq)
  then show ?thesis
    by (simp only: int_and_not_mask) simp
qed

lemma sint_alignToPage_le: "sint (alignToPage n) \<le> 2 ^ 63 - 4096"
proof -
  have lt: "sint (alignToPage n) < 2 ^ 63"
    using sint_lt [of "alignToPage n"] by simp
  have "4096 dvd sint (alignToPage n)"
    using sint_alignToPage_mod [of n] by (simp add: mod_eq_0_iff_dvd)
  then obtain j where j: "sint (alignToPage n) = 4096 * j" ..
  with lt have "j < 2 ^ 51" by simp
  then have "4096 * j \<le> 2 ^ 63 - 4096" by simp
  with j show ?thesis by simp
qed

lemma alignToPage_overflow:
  assumes "2 ^ 63 - 4096 < sint n"
  shows "sint (alignToPage n) < - (2 ^ 62)"
proof -
  let ?k = "sint n + 4095"
  have hi: "sint n < 2 ^ 63" using sint_lt [of n] by simp
  have "sint (n + mask 12) = signed_take_bit 63 ?k"
    by (simp add: sint_word_ariths mask_eq_exp_minus_1)
  moreover have "signed_take_bit 63 ?k \<le> ?k - 2 ^ Suc 63"
    using assms by (intro signed_take_bit_int_less_eq) simp
  ultimately have "sint (n + mask 12) \<le> ?k - 2 ^ 64" by simp
  with hi have a: "sint (n + mask 12) < - (2 ^ 62)" by simp
  have "sint (alignToPage n) = sint (n + mask 12) - sint (n + mask 12) mod 4096"
    by (simp add: sint_alignToPage_floor minus_mod_eq_div_mult)
  moreover have "0 \<le> sint (n + mask 12) mod 4096" by simp
  ultimately have "sint (alignToPage n) \<le> sint (n + mask 12)" by linarith
  with a show ?thesis by linarith
qed

lemma alignToPage_pos_iff:
  "(0 < sint (alignToPage n)) = (0 < sint n \<and> sint n \<le> 2 ^ 63 - 4096)"
proof (cases "sint n \<le> 2 ^ 63 - 4096")
  case True
  then have "roundsUp n (alignToPage n)" by (rule roundsUp_alignToPage)
  then have r: "sint n \<le> sint (alignToPage n)" "sint (alignToPage n) < sint n + 4096"
    and m: "4096 dvd sint (alignToPage n)"
    by (simp_all add: roundsUp_def mod_eq_0_iff_dvd)
  from m obtain j where j: "sint (alignToPage n) = 4096 * j" ..
  have "0 < sint (alignToPage n)" if "0 < sint n"
    using that r(1) by linarith
  moreover have "0 < sint n" if "0 < sint (alignToPage n)"
  proof -
    from that j have "1 \<le> j" by simp
    with j r(2) show ?thesis by linarith
  qed
  ultimately show ?thesis using True by auto
next
  case False
  then have "sint (alignToPage n) < - (2 ^ 62)"
    by (intro alignToPage_overflow) simp
  with False show ?thesis by simp
qed

subsection \<open>Rounding up on the integers\<close>

lemma ceil_below_even:
  fixes w a s :: int
  assumes "a mod 4096 = 0" "a < w + 4096" "s mod 8192 = 0" "2 * w \<le> s"
  shows "2 * a \<le> s"
proof -
  from assms(1) have "4096 dvd a" by (simp add: mod_eq_0_iff_dvd)
  then obtain i where i: "a = 4096 * i" ..
  from assms(3) have "8192 dvd s" by (simp add: mod_eq_0_iff_dvd)
  then obtain j where j: "s = 8192 * j" ..
  from assms(2,4) i j have "i \<le> j" by linarith
  with i j show ?thesis by simp
qed

lemma double_ceil:
  fixes w a b :: int
  assumes "a mod 4096 = 0" "w \<le> a" "a < w + 4096"
    "b mod 4096 = 0" "2 * w \<le> b" "b < 2 * w + 4096"
  shows "(2 * a \<le> b) = (w mod 4096 = 0 \<or> 2048 < w mod 4096)"
proof -
  define q r where "q = w div 4096" and "r = w mod 4096"
  have w: "w = 4096 * q + r" and r: "0 \<le> r" "r < 4096"
    by (simp_all add: q_def r_def)
  from assms(1) have "4096 dvd a" by (simp add: mod_eq_0_iff_dvd)
  then obtain i where i: "a = 4096 * i" ..
  from assms(4) have "4096 dvd b" by (simp add: mod_eq_0_iff_dvd)
  then obtain k where k: "b = 4096 * k" ..
  consider "r = 0" | "0 < r" "r \<le> 2048" | "2048 < r"
    using r(1) by linarith
  then have "(2 * a \<le> b) = (r = 0 \<or> 2048 < r)"
  proof cases
    case 1
    with w i k assms(2,3,5,6) have "i = q" "k = 2 * q" by linarith+
    with i k 1 show ?thesis by simp
  next
    case 2
    with w i k assms(2,3,5,6) r have "i = q + 1" "k = 2 * q + 1" by linarith+
    with i k 2 show ?thesis by simp
  next
    case 3
    with w i k assms(2,3,5,6) r have "i = q + 1" "k = 2 * q + 2" by linarith+
    with i k 3 show ?thesis by simp
  qed
  then show ?thesis by (simp add: r_def)
qed

subsection \<open>The converted sizes\<close>

lemma sint_push_bit_20_mod:
  fixes x :: int64
  shows "sint (push_bit 20 x) mod 8192 = 0"
proof -
  have "push_bit 20 x AND NOT (mask 13) = push_bit 20 x"
    by (rule bit_eqI) (auto simp add: bit_simps)
  then have "sint (push_bit 20 x) = sint (push_bit 20 x AND NOT (mask 13))"
    by simp
  also have "\<dots> = sint (push_bit 20 x) AND sint (NOT (mask 13) :: int64)"
    by (simp only: signed_and_eq)
  also have "sint (NOT (mask 13) :: int64) = NOT (mask 13)"
    by (simp add: mask_eq_exp_minus_1)
  finally have "sint (push_bit 20 x) = sint (push_bit 20 x) div 2 ^ 13 * 2 ^ 13"
    by (simp only: int_and_not_mask)
  then have "sint (push_bit 20 x) mod 2 ^ 13 = 0"
    by (metis mod_mult_self2_is_0)
  then show ?thesis by simp
qed

lemma sint_convert_PerSyncSize:
  assumes "\<not> Developed c"
  shows "sint (PerSyncSize (convert c)) mod 8192 = 0"
    "alignToPage (PerSyncSize (convert c)) = PerSyncSize (convert c)"
    "sint (PerSyncSize (convert c)) \<le> 2 ^ 63 - 4096"
proof -
  show "sint (PerSyncSize (convert c)) mod 8192 = 0"
    using assms
    by (simp add: convert_PerSyncSize times_mb_push_bit sint_push_bit_20_mod)
      (simp add: consts_defs)
  show a: "alignToPage (PerSyncSize (convert c)) = PerSyncSize (convert c)"
    using assms
    by (simp add: convert_PerSyncSize times_mb_push_bit alignToPage_push_bit)
      (simp add: consts_defs alignToPage_numeral)
  show "sint (PerSyncSize (convert c)) \<le> 2 ^ 63 - 4096"
    using sint_alignToPage_le [of "PerSyncSize (convert c)"] by (simp add: a)
qed

lemma clampSync_cases:
  "PerSyncSize (clampSync c) =
    (if sint (PerSyncSize c) < sint (2 * PerWriteSize c) then 2 * PerWriteSize c
     else PerSyncSize c)"
  by (simp add: clampSync_def)

lemma aligned_write_size:
  assumes "\<not> Developed c" "sint (PerWriteSize (convert c)) \<le> 2 ^ 63 - 4096"
  shows "sint (PerWriteSize (adjust c)) mod 4096 = 0"
    "sint (PerWriteSize (convert c)) \<le> sint (PerWriteSize (adjust c))"
    "sint (PerWriteSize (adjust c)) < sint (PerWriteSize (convert c)) + 4096"
proof -
  have "roundsUp (PerWriteSize (convert c)) (alignToPage (PerWriteSize (convert c)))"
    using assms(2) by (rule roundsUp_alignToPage)
  then show "sint (PerWriteSize (adjust c)) mod 4096 = 0"
    "sint (PerWriteSize (convert c)) \<le> sint (PerWriteSize (adjust c))"
    "sint (PerWriteSize (adjust c)) < sint (PerWriteSize (convert c)) + 4096"
    using assms(1) by (simp_all add: roundsUp_def adjust_sizes_not_Developed)
qed

subsection \<open>The sync size against twice the write size\<close>

text \<open>Neither the doubling nor the alignment wraps.\<close>

lemma sync_twice_write_in_range:
  assumes d: "\<not> Developed c"
    and lo: "- (2 ^ 62) \<le> sint (PerWriteSize (convert c))"
    and hi: "2 * sint (PerWriteSize (convert c)) \<le> 2 ^ 63 - 4096"
  shows "2 * sint (PerWriteSize (convert c)) \<le> sint (PerSyncSize (adjust c))"
    "(2 * sint (PerWriteSize (adjust c)) \<le> sint (PerSyncSize (adjust c))) =
      (2 * sint (PerWriteSize (convert c)) \<le> sint (PerSyncSize (convert c))
        \<or> sint (PerWriteSize (convert c)) mod 4096 = 0
        \<or> 2048 < sint (PerWriteSize (convert c)) mod 4096)"
proof -
  let ?W = "PerWriteSize (convert c)" and ?S = "PerSyncSize (convert c)"
  let ?w = "sint ?W" and ?s = "sint ?S"
  let ?a = "sint (PerWriteSize (adjust c))" and ?b = "sint (PerSyncSize (adjust c))"
  from hi have w63: "?w \<le> 2 ^ 63 - 4096" and w62: "?w < 2 ^ 62" by simp_all
  have a: "?a mod 4096 = 0" "?w \<le> ?a" "?a < ?w + 4096"
    using d w63 by (rule aligned_write_size)+
  have dbl: "sint (2 * ?W) = 2 * ?w"
    using lo w62 by (rule sint_double)
  have s: "?s mod 8192 = 0" "alignToPage ?S = ?S"
    using d by (rule sint_convert_PerSyncSize)+
  have b: "PerSyncSize (adjust c) = alignToPage (PerSyncSize (clampSync (convert c)))"
    using d by (rule adjust_sizes_not_Developed)
  let ?rhs = "2 * ?w \<le> ?s \<or> ?w mod 4096 = 0 \<or> 2048 < ?w mod 4096"
  have both: "2 * ?w \<le> ?b \<and> (2 * ?a \<le> ?b) = ?rhs"
  proof (cases "2 * ?w \<le> ?s")
    case True
    then have eq: "PerSyncSize (adjust c) = ?S"
      by (simp add: b clampSync_cases dbl s(2))
    have "2 * ?a \<le> ?s"
      using a(1) a(3) s(1) True by (rule ceil_below_even)
    with True show ?thesis by (simp add: eq)
  next
    case False
    then have eq: "PerSyncSize (adjust c) = alignToPage (2 * ?W)"
      by (simp add: b clampSync_cases dbl)
    have "sint (2 * ?W) \<le> 2 ^ 63 - 4096" using hi by (simp add: dbl)
    then have "roundsUp (2 * ?W) (alignToPage (2 * ?W))" by (rule roundsUp_alignToPage)
    then have r: "?b mod 4096 = 0" "2 * ?w \<le> ?b" "?b < 2 * ?w + 4096"
      by (simp_all add: roundsUp_def eq dbl)
    have "(2 * ?a \<le> ?b) = (?w mod 4096 = 0 \<or> 2048 < ?w mod 4096)"
      using a r by (rule double_ceil)
    with False r(2) show ?thesis by simp
  qed
  from both show "2 * ?w \<le> ?b" ..
  from both show "(2 * ?a \<le> ?b) = ?rhs" ..
qed

text \<open>The converted write size has wrapped so far down that twice it is below every \<open>int64\<close>.\<close>

lemma sync_twice_write_low:
  assumes d: "\<not> Developed c" and lo: "sint (PerWriteSize (convert c)) < - (2 ^ 62)"
  shows "2 * sint (PerWriteSize (adjust c)) \<le> sint (PerSyncSize (adjust c))"
proof -
  let ?a = "sint (PerWriteSize (adjust c))"
  have a: "?a mod 4096 = 0" "?a < sint (PerWriteSize (convert c)) + 4096"
    using d lo by (simp_all add: aligned_write_size)
  from a(1) have "4096 dvd ?a" by (simp add: mod_eq_0_iff_dvd)
  then obtain i where i: "?a = 4096 * i" ..
  with a(2) lo have "i \<le> - (2 ^ 50)" by simp
  with i have "2 * ?a \<le> - (2 ^ 63)" by simp
  moreover have "- (2 ^ 63) \<le> sint (PerSyncSize (adjust c))"
    using sint_ge [of "PerSyncSize (adjust c)"] by simp
  ultimately show ?thesis by simp
qed

text \<open>Twice the converted write size, rounded up, does not fit in \<open>int64\<close>.\<close>

lemma sync_twice_write_high:
  assumes d: "\<not> Developed c" and hi: "2 ^ 63 - 4096 < 2 * sint (PerWriteSize (convert c))"
  shows "\<not> 2 * sint (PerWriteSize (convert c)) \<le> sint (PerSyncSize (adjust c))"
    "(2 * sint (PerWriteSize (adjust c)) \<le> sint (PerSyncSize (adjust c))) =
      (2 ^ 63 - 4096 < sint (PerWriteSize (convert c)))"
proof -
  let ?w = "sint (PerWriteSize (convert c))"
  let ?a = "sint (PerWriteSize (adjust c))" and ?b = "sint (PerSyncSize (adjust c))"
  have "?b = sint (alignToPage (PerSyncSize (clampSync (convert c))))"
    using d by (simp add: adjust_sizes_not_Developed)
  then have b: "?b \<le> 2 ^ 63 - 4096"
    using sint_alignToPage_le [of "PerSyncSize (clampSync (convert c))"] by simp
  have lb: "- (2 ^ 63) \<le> ?b"
    using sint_ge [of "PerSyncSize (adjust c)"] by simp
  show "\<not> 2 * ?w \<le> ?b" using hi b by simp
  show "(2 * ?a \<le> ?b) = (2 ^ 63 - 4096 < ?w)"
  proof (cases "2 ^ 63 - 4096 < ?w")
    case True
    then have "sint (alignToPage (PerWriteSize (convert c))) < - (2 ^ 62)"
      by (rule alignToPage_overflow)
    then have "?a < - (2 ^ 62)" using d by (simp add: adjust_sizes_not_Developed)
    with lb have "2 * ?a \<le> ?b" by simp
    with True show ?thesis by simp
  next
    case False
    then have w: "?w \<le> 2 ^ 63 - 4096" by simp
    have a: "?a mod 4096 = 0" "?w \<le> ?a"
      using d w by (rule aligned_write_size)+
    from a(1) have "4096 dvd ?a" by (simp add: mod_eq_0_iff_dvd)
    then obtain i where i: "?a = 4096 * i" ..
    with a(2) hi have "2 ^ 50 \<le> i" by simp
    with i have "2 ^ 63 \<le> 2 * ?a" by simp
    with b have "\<not> 2 * ?a \<le> ?b" by simp
    with False show ?thesis by simp
  qed
qed

subsection \<open>Idempotence\<close>

lemma convert_idem:
  assumes "Developed c"
  shows "convert (convert c) = convert c"
  using assms by (simp add: convert_def sint_defaults consts_defs)

lemma adjust_idem_Developed:
  assumes "Developed c"
  shows "adjust (adjust c) = adjust c"
  using assms by (simp add: adjust_Developed convert_frame convert_idem)

lemma adjust_MaxSize_changes:
  assumes "\<not> Developed c"
  shows "MaxSize (adjust (adjust c)) \<noteq> MaxSize (adjust c)"
proof -
  let ?m = "MaxSize (adjust c)"
  have d: "\<not> Developed (adjust c)"
    using assms by (simp add: adjust_not_Developed alignSizes_fields clampSync_fields convert_frame)
  have eq: "MaxSize (adjust (adjust c)) = alignToPage (MaxSize (convert (adjust c)))"
    using d by (rule adjust_sizes_not_Developed)
  show ?thesis
  proof (cases "sint ?m \<le> 0")
    case True
    then have "MaxSize (adjust (adjust c)) = 134217728"
      using d by (simp add: eq convert_MaxSize consts_defs alignToPage_numeral)
    then have "sint (MaxSize (adjust (adjust c))) = 134217728" by simp
    with True show ?thesis by auto
  next
    case False
    then have "MaxSize (adjust (adjust c)) = push_bit 20 ?m"
      using d by (simp add: eq convert_MaxSize times_mb_push_bit alignToPage_push_bit)
    moreover have "push_bit 20 ?m \<noteq> ?m"
    proof
      assume "push_bit 20 ?m = ?m"
      then have "?m = 0" by (rule push_bit_fixed)
      with False show False by simp
    qed
    ultimately show ?thesis by simp
  qed
qed

section \<open>Properties of the normalisation\<close>

text \<open>
  C1, amended. Write \<open>w\<close> for the converted write size and \<open>s\<close> for the converted sync
  size (the fields after \<open>convert\<close>), read as signed values.

  With \<open>Developed\<close> set nothing is enforced: the sync size is at least twice the write
  size after \<open>adjust\<close> exactly when \<open>2 * w \<le> s\<close>.

  With \<open>Developed\<close> false, the final sync size is at least \<open>2 * w\<close> exactly when
  \<open>2 * w \<le> 2 ^ 63 - 4096\<close> (twice the write size, rounded up, fits in \<open>int64\<close>), which holds
  for every \<open>PerWriteSize < 2 ^ 52 - 1\<close>. It is at least twice the final, aligned write size
  exactly when \<open>2 * w \<le> 2 ^ 63 - 4096\<close> and either \<open>2 * w \<le> s\<close> (the sync size is not
  raised; it is a multiple of 8192), or \<open>w mod 4096\<close> is 0 or above 2048 (the sync size
  is raised to \<open>2 * w\<close> and the two alignments agree); or else when \<open>w > 2 ^ 63 - 4096\<close>,
  where the aligned write size itself has wrapped to a negative value.
\<close>

theorem adjust_sync_twice_write:
  "(Developed c \<longrightarrow>
      (2 * sint (PerWriteSize (adjust c)) \<le> sint (PerSyncSize (adjust c))) =
      (2 * sint (PerWriteSize (convert c)) \<le> sint (PerSyncSize (convert c))))
    \<and> (\<not> Developed c \<longrightarrow>
      (2 * sint (PerWriteSize (convert c)) \<le> sint (PerSyncSize (adjust c))) =
        (2 * sint (PerWriteSize (convert c)) \<le> 2 ^ 63 - 4096)
      \<and> (2 * sint (PerWriteSize (adjust c)) \<le> sint (PerSyncSize (adjust c))) =
        (2 ^ 63 - 4096 < sint (PerWriteSize (convert c))
          \<or> 2 * sint (PerWriteSize (convert c)) \<le> 2 ^ 63 - 4096
            \<and> (2 * sint (PerWriteSize (convert c)) \<le> sint (PerSyncSize (convert c))
              \<or> sint (PerWriteSize (convert c)) mod 4096 = 0
              \<or> 2048 < sint (PerWriteSize (convert c)) mod 4096)))"
proof (intro conjI impI)
  assume "Developed c"
  then show "(2 * sint (PerWriteSize (adjust c)) \<le> sint (PerSyncSize (adjust c))) =
      (2 * sint (PerWriteSize (convert c)) \<le> sint (PerSyncSize (convert c)))"
    by (simp add: adjust_Developed)
next
  let ?w = "sint (PerWriteSize (convert c))" and ?s = "sint (PerSyncSize (convert c))"
  let ?a = "sint (PerWriteSize (adjust c))" and ?b = "sint (PerSyncSize (adjust c))"
  assume d: "\<not> Developed c"
  have slo: "- (2 ^ 63) \<le> ?s" using sint_ge [of "PerSyncSize (convert c)"] by simp
  have blo: "- (2 ^ 63) \<le> ?b" using sint_ge [of "PerSyncSize (adjust c)"] by simp
  consider (low) "?w < - (2 ^ 62)"
    | (mid) "- (2 ^ 62) \<le> ?w" "2 * ?w \<le> 2 ^ 63 - 4096"
    | (high) "2 ^ 63 - 4096 < 2 * ?w"
    by linarith
  then have "(2 * ?w \<le> ?b) = (2 * ?w \<le> 2 ^ 63 - 4096)
    \<and> (2 * ?a \<le> ?b) =
        (2 ^ 63 - 4096 < ?w
          \<or> 2 * ?w \<le> 2 ^ 63 - 4096
            \<and> (2 * ?w \<le> ?s \<or> ?w mod 4096 = 0 \<or> 2048 < ?w mod 4096))"
  proof cases
    case low
    have "2 * ?a \<le> ?b" using d low by (rule sync_twice_write_low)
    with low slo blo show ?thesis by simp
  next
    case mid
    note r = sync_twice_write_in_range [OF d mid]
    from mid(2) have "\<not> 2 ^ 63 - 4096 < ?w" by simp
    with r mid(2) show ?thesis by simp
  next
    case high
    note r = sync_twice_write_high [OF d high]
    from high have "\<not> 2 * ?w \<le> 2 ^ 63 - 4096" by simp
    with r show ?thesis by simp
  qed
  then show "(2 * ?w \<le> ?b) = (2 * ?w \<le> 2 ^ 63 - 4096)"
    and "(2 * ?a \<le> ?b) =
        (2 ^ 63 - 4096 < ?w
          \<or> 2 * ?w \<le> 2 ^ 63 - 4096
            \<and> (2 * ?w \<le> ?s \<or> ?w mod 4096 = 0 \<or> 2048 < ?w mod 4096))"
    by simp_all
qed

theorem adjust_sync_twice_write_witness:
  "Developed relaxedScenario
    \<and> 2 * sint (PerWriteSize (adjust relaxedScenario)) \<le> sint (PerSyncSize (adjust relaxedScenario))
    \<and> \<not> Developed kiloWrite
    \<and> sint (PerWriteSize (convert kiloWrite)) = 1024
    \<and> sint (PerSyncSize (convert kiloWrite)) = 16777216
    \<and> 2 * sint (PerWriteSize (adjust kiloWrite)) \<le> sint (PerSyncSize (adjust kiloWrite))
    \<and> \<not> Developed smallMaxSize
    \<and> sint (PerWriteSize (convert smallMaxSize)) = 2097152
    \<and> sint (PerSyncSize (convert smallMaxSize)) = 1048576
    \<and> 2 * sint (PerWriteSize (adjust smallMaxSize)) \<le> sint (PerSyncSize (adjust smallMaxSize))
    \<and> \<not> Developed oddWrite
    \<and> sint (PerWriteSize (convert oddWrite)) = 525312
    \<and> sint (PerSyncSize (convert oddWrite)) = 1048576
    \<and> \<not> 2 * sint (PerWriteSize (adjust oddWrite)) \<le> sint (PerSyncSize (adjust oddWrite))"
proof -
  have d: "Developed relaxedScenario" "\<not> Developed kiloWrite" "\<not> Developed smallMaxSize"
    "\<not> Developed oddWrite"
    by (simp_all add: relaxedScenario_def kiloWrite_def smallMaxSize_def oddWrite_def)
  have r: "sint (PerWriteSize (convert relaxedScenario)) = 3"
    "sint (PerSyncSize (convert relaxedScenario)) = 6"
    by (simp_all add: relaxedScenario_def convert_PerWriteSize convert_PerSyncSize)
  have k: "sint (PerWriteSize (convert kiloWrite)) = 1024"
    "sint (PerSyncSize (convert kiloWrite)) = 16777216"
    by (simp_all add: kiloWrite_def convert_PerWriteSize convert_PerSyncSize consts_defs)
  have m: "sint (PerWriteSize (convert smallMaxSize)) = 2097152"
    "sint (PerSyncSize (convert smallMaxSize)) = 1048576"
    by (simp_all add: smallMaxSize_def convert_PerWriteSize convert_PerSyncSize consts_defs)
  have o: "sint (PerWriteSize (convert oddWrite)) = 525312"
    "sint (PerSyncSize (convert oddWrite)) = 1048576"
    by (simp_all add: oddWrite_def convert_PerWriteSize convert_PerSyncSize consts_defs)
  have 1: "2 * sint (PerWriteSize (adjust relaxedScenario))
      \<le> sint (PerSyncSize (adjust relaxedScenario))"
    using adjust_sync_twice_write [of relaxedScenario] d(1) by (simp add: r)
  have 2: "2 * sint (PerWriteSize (adjust kiloWrite)) \<le> sint (PerSyncSize (adjust kiloWrite))"
    using adjust_sync_twice_write [of kiloWrite] d(2) by (simp add: k)
  have 3: "2 * sint (PerWriteSize (adjust smallMaxSize))
      \<le> sint (PerSyncSize (adjust smallMaxSize))"
    using adjust_sync_twice_write [of smallMaxSize] d(3) by (simp add: m)
  have 4: "\<not> 2 * sint (PerWriteSize (adjust oddWrite)) \<le> sint (PerSyncSize (adjust oddWrite))"
    using adjust_sync_twice_write [of oddWrite] d(4) by (simp add: o)
  show ?thesis by (intro conjI d r k m o 1 2 3 4)
qed

text \<open>
  C1 as stated, for every configuration, fails by design when \<open>Developed\<close> is set: the
  block that raises the sync size is skipped, and a write size of 3 with a sync size of 5
  comes out unchanged.
\<close>

theorem sync_below_twice_write_relaxed:
  "\<not> 2 * sint (PerWriteSize (adjust relaxedTiny)) \<le> sint (PerSyncSize (adjust relaxedTiny))"
  by (simp add: relaxedTiny_def adjust_Developed convert_PerWriteSize convert_PerSyncSize)

text \<open>
  C1 also fails with \<open>Developed\<close> false, when the sync size is raised and the converted
  write size is 1024 or 2048 above a multiple of 4096: 513 KB and 1 MB give a write size
  of 528384 and a sync size of 1052672, below 1056768.
\<close>

lemma sync_below_twice_write_aligned:
  "PerWriteSize (adjust oddWrite) = 528384 \<and> PerSyncSize (adjust oddWrite) = 1052672"
  by (simp add: oddWrite_def stages_defs consts_defs alignToPage_numeral)

text \<open>
  C2, amended. \<open>adjust\<close> is idempotent exactly when \<open>Developed\<close> is set (the units are 1 and
  nothing is aligned); with \<open>Developed\<close> false a second \<open>adjust\<close> always changes \<open>MaxSize\<close>.
\<close>

theorem adjust_idempotent_iff:
  "(adjust (adjust c) = adjust c) = Developed c"
proof (cases "Developed c")
  case True
  then show ?thesis by (simp add: adjust_idem_Developed)
next
  case False
  then have "MaxSize (adjust (adjust c)) \<noteq> MaxSize (adjust c)"
    by (rule adjust_MaxSize_changes)
  then have "adjust (adjust c) \<noteq> adjust c" by auto
  with False show ?thesis by simp
qed

theorem adjust_idempotent_iff_witness:
  "Developed relaxedTiny \<and> adjust (adjust relaxedTiny) = adjust relaxedTiny
    \<and> MaxBackups (adjust relaxedTiny) = 2 \<and> PerSyncSize (adjust relaxedTiny) = 5"
proof -
  have d: "Developed relaxedTiny" by (simp add: relaxedTiny_def)
  have v: "MaxBackups (adjust relaxedTiny) = 2" "PerSyncSize (adjust relaxedTiny) = 5"
    by (simp_all add: relaxedTiny_def stages_defs)
  from adjust_idempotent_iff [of relaxedTiny] d v show ?thesis by simp
qed

text \<open>
  C2 as stated fails: the result of \<open>adjust\<close> holds sizes in bytes, and a second \<open>adjust\<close>
  reads them as MB and KB again. From the all-zero configuration the first call gives
  a \<open>MaxSize\<close> of \<open>2 ^ 27\<close>, the second \<open>2 ^ 47\<close>.
\<close>

theorem adjust_twice_differs:
  "adjust (adjust allZero) \<noteq> adjust allZero"
proof
  assume "adjust (adjust allZero) = adjust allZero"
  then have "MaxSize (adjust (adjust allZero)) = MaxSize (adjust allZero)" by simp
  then show False
    by (simp add: allZero_def stages_defs consts_defs alignToPage_numeral)
qed

text \<open>
  C3, amended. \<open>adjust\<close> keeps the order where it already holds after the conversion: when
  the converted \<open>MaxSize\<close> is at least the converted \<open>PerWriteSize\<close>, so is the final one (the
  alignment is monotone and the converted \<open>MaxSize\<close> is already a multiple of the page
  size).
\<close>

theorem adjust_keeps_max_above_write:
  assumes "sint (PerWriteSize (convert c)) \<le> sint (MaxSize (convert c))"
  shows "sint (PerWriteSize (adjust c)) \<le> sint (MaxSize (adjust c))"
proof (cases "Developed c")
  case True
  then show ?thesis using assms by (simp add: adjust_Developed)
next
  case False
  have "sint (MaxSize (convert c)) \<le> 2 ^ 63 - 4096"
    using False by (rule sint_convert_MaxSize)
  with assms
  have "sint (alignToPage (PerWriteSize (convert c))) \<le> sint (alignToPage (MaxSize (convert c)))"
    by (rule alignToPage_mono)
  then show ?thesis using False by (simp add: adjust_sizes_not_Developed)
qed

theorem adjust_keeps_max_above_write_witness:
  "sint (PerWriteSize (convert typical)) \<le> sint (MaxSize (convert typical))
    \<and> sint (PerWriteSize (adjust typical)) \<le> sint (MaxSize (adjust typical))
    \<and> sint (PerWriteSize (adjust typical)) = 131072
    \<and> sint (MaxSize (adjust typical)) = 268435456"
proof -
  have c: "sint (PerWriteSize (convert typical)) \<le> sint (MaxSize (convert typical))"
    by (simp add: typical_def convert_PerWriteSize convert_MaxSize consts_defs)
  have v: "sint (PerWriteSize (adjust typical)) = 131072"
    "sint (MaxSize (adjust typical)) = 268435456"
    by (simp_all add: typical_def stages_defs consts_defs alignToPage_numeral)
  from adjust_keeps_max_above_write [OF c] c v show ?thesis by simp
qed

text \<open>
  C3 as stated fails: nothing in \<open>adjust\<close> compares \<open>MaxSize\<close> with \<open>PerWriteSize\<close>. A rotation
  size of 1 MB with a write size of 2048 KB gives 1048576 and 2097152.
\<close>

theorem max_below_write_size:
  "\<not> sint (PerWriteSize (adjust smallMaxSize)) \<le> sint (MaxSize (adjust smallMaxSize))"
  by (simp add: smallMaxSize_def stages_defs consts_defs alignToPage_numeral)

text \<open>
  C4, amended. The three sizes are strictly positive after \<open>adjust\<close> exactly when \<open>Developed\<close>
  is set, or the converted \<open>MaxSize\<close> is positive and the two values handed to the
  alignment, the converted write size and the converted and clamped sync size, are
  positive and at most \<open>2 ^ 63 - 4096\<close>. This is the case whenever \<open>MaxSize < 2 ^ 43\<close> and
  \<open>PerWriteSize < 2 ^ 52 - 1\<close>, whatever \<open>PerSyncSize\<close> is.
\<close>

theorem adjust_sizes_positive:
  "((0 < sint (MaxSize (adjust c)) \<and> 0 < sint (PerWriteSize (adjust c))
        \<and> 0 < sint (PerSyncSize (adjust c))) =
      (Developed c
        \<or> 0 < sint (MaxSize (convert c))
          \<and> 0 < sint (PerWriteSize (convert c))
          \<and> sint (PerWriteSize (convert c)) \<le> 2 ^ 63 - 4096
          \<and> 0 < sint (PerSyncSize (clampSync (convert c)))
          \<and> sint (PerSyncSize (clampSync (convert c))) \<le> 2 ^ 63 - 4096))
    \<and> (Developed c \<or> sint (MaxSize c) < 2 ^ 43 \<and> sint (PerWriteSize c) < 2 ^ 52 - 1 \<longrightarrow>
      0 < sint (MaxSize (adjust c)) \<and> 0 < sint (PerWriteSize (adjust c))
        \<and> 0 < sint (PerSyncSize (adjust c)))"
proof -
  let ?pos = "0 < sint (MaxSize (adjust c)) \<and> 0 < sint (PerWriteSize (adjust c))
        \<and> 0 < sint (PerSyncSize (adjust c))"
  let ?pre = "0 < sint (MaxSize (convert c))
          \<and> 0 < sint (PerWriteSize (convert c))
          \<and> sint (PerWriteSize (convert c)) \<le> 2 ^ 63 - 4096
          \<and> 0 < sint (PerSyncSize (clampSync (convert c)))
          \<and> sint (PerSyncSize (clampSync (convert c))) \<le> 2 ^ 63 - 4096"
  have dev: ?pos if "Developed c"
    using that
    by (simp add: adjust_Developed convert_MaxSize convert_PerWriteSize convert_PerSyncSize
        sint_defaults)
  have nodev: "?pos = ?pre" if "\<not> Developed c"
    using that by (simp add: adjust_sizes_not_Developed adjust_MaxSize alignToPage_pos_iff)
  have 1: "?pos = (Developed c \<or> ?pre)"
    using dev nodev by (cases "Developed c") simp_all
  have 2: ?pos if "Developed c \<or> sint (MaxSize c) < 2 ^ 43 \<and> sint (PerWriteSize c) < 2 ^ 52 - 1"
  proof (cases "Developed c")
    case True
    then show ?thesis by (rule dev)
  next
    case False
    with that have r: "sint (MaxSize c) < 2 ^ 43" "sint (PerWriteSize c) < 2 ^ 52 - 1"
      by simp_all
    have m: "0 < sint (MaxSize (convert c))"
      using False r(1) by (rule convert_MaxSize_in_range)
    have w: "0 < sint (PerWriteSize (convert c))"
      "2 * sint (PerWriteSize (convert c)) \<le> 2 ^ 63 - 4096"
      using False r(2) by (rule convert_PerWriteSize_in_range)+
    then have w': "sint (PerWriteSize (convert c)) \<le> 2 ^ 63 - 4096"
      "- (2 ^ 62) \<le> sint (PerWriteSize (convert c))" "sint (PerWriteSize (convert c)) < 2 ^ 62"
      by simp_all
    have dbl: "sint (2 * PerWriteSize (convert c)) = 2 * sint (PerWriteSize (convert c))"
      using w'(2) w'(3) by (rule sint_double)
    have s: "sint (PerSyncSize (convert c)) \<le> 2 ^ 63 - 4096"
      using False by (rule sint_convert_PerSyncSize)
    have "0 < sint (PerSyncSize (clampSync (convert c)))"
      "sint (PerSyncSize (clampSync (convert c))) \<le> 2 ^ 63 - 4096"
      using w s by (simp_all add: clampSync_cases dbl)
    with m w(1) w'(1) have ?pre by simp
    with nodev [OF False] show ?thesis by simp
  qed
  from 1 2 show ?thesis by blast
qed

theorem adjust_sizes_positive_witness:
  "\<not> Developed hugeSync \<and> sint (MaxSize hugeSync) < 2 ^ 43
    \<and> sint (PerWriteSize hugeSync) < 2 ^ 52 - 1
    \<and> MaxSize (adjust hugeSync) = 134217728 \<and> PerWriteSize (adjust hugeSync) = 65536
    \<and> PerSyncSize (adjust hugeSync) = 131072
    \<and> 0 < sint (MaxSize (adjust hugeSync)) \<and> 0 < sint (PerWriteSize (adjust hugeSync))
    \<and> 0 < sint (PerSyncSize (adjust hugeSync))"
proof -
  have h: "\<not> Developed hugeSync" "sint (MaxSize hugeSync) < 2 ^ 43"
    "sint (PerWriteSize hugeSync) < 2 ^ 52 - 1"
    by (simp_all add: hugeSync_def)
  have v: "MaxSize (adjust hugeSync) = 134217728" "PerWriteSize (adjust hugeSync) = 65536"
    "PerSyncSize (adjust hugeSync) = 131072"
    by (simp_all add: hugeSync_def stages_defs consts_defs alignToPage_numeral)
  have p: "0 < sint (MaxSize (adjust hugeSync)) \<and> 0 < sint (PerWriteSize (adjust hugeSync))
    \<and> 0 < sint (PerSyncSize (adjust hugeSync))"
    using adjust_sizes_positive [of hugeSync] h by blast
  show ?thesis using h v p by (intro conjI) simp_all
qed

text \<open>
  C4 as stated fails on overflow: a \<open>MaxSize\<close> of \<open>2 ^ 44\<close> MB times \<open>2 ^ 20\<close> wraps to 0 in
  \<open>int64\<close>, and 0 stays 0 under the alignment.
\<close>

theorem max_size_not_positive:
  "\<not> 0 < sint (MaxSize (adjust hugeMaxSize))"
  by (simp add: hugeMaxSize_def stages_defs consts_defs alignToPage_numeral)

text \<open>
  C5, amended. With \<open>Developed\<close> false the three sizes are multiples of 4096 after \<open>adjust\<close>,
  for every configuration. \<open>MaxSize\<close> is its converted value, already a multiple. The
  write size and the sync size are the converted value, and the converted and clamped
  value, rounded up to the nearest multiple of 4096, provided that value is at most
  \<open>2 ^ 63 - 4096\<close>, so that adding \<open>pageSize - 1\<close> does not overflow.
\<close>

theorem adjust_aligns_sizes:
  assumes "\<not> Developed c"
  shows "(sint (MaxSize (adjust c)) mod 4096 = 0 \<and> sint (PerWriteSize (adjust c)) mod 4096 = 0
      \<and> sint (PerSyncSize (adjust c)) mod 4096 = 0)
    \<and> roundsUp (MaxSize (convert c)) (MaxSize (adjust c))
    \<and> (sint (PerWriteSize (convert c)) \<le> 2 ^ 63 - 4096 \<longrightarrow>
        roundsUp (PerWriteSize (convert c)) (PerWriteSize (adjust c)))
    \<and> (sint (PerSyncSize (clampSync (convert c))) \<le> 2 ^ 63 - 4096 \<longrightarrow>
        roundsUp (PerSyncSize (clampSync (convert c))) (PerSyncSize (adjust c)))"
proof (intro conjI impI)
  show "sint (MaxSize (adjust c)) mod 4096 = 0" "sint (PerWriteSize (adjust c)) mod 4096 = 0"
    "sint (PerSyncSize (adjust c)) mod 4096 = 0"
    using assms by (simp_all add: adjust_sizes_not_Developed sint_alignToPage_mod)
  show "roundsUp (MaxSize (convert c)) (MaxSize (adjust c))"
    using sint_convert_MaxSize(1) [OF assms] by (simp add: adjust_MaxSize roundsUp_def)
next
  assume "sint (PerWriteSize (convert c)) \<le> 2 ^ 63 - 4096"
  then have "roundsUp (PerWriteSize (convert c)) (alignToPage (PerWriteSize (convert c)))"
    by (rule roundsUp_alignToPage)
  then show "roundsUp (PerWriteSize (convert c)) (PerWriteSize (adjust c))"
    using assms by (simp add: adjust_sizes_not_Developed)
next
  assume "sint (PerSyncSize (clampSync (convert c))) \<le> 2 ^ 63 - 4096"
  then have "roundsUp (PerSyncSize (clampSync (convert c)))
      (alignToPage (PerSyncSize (clampSync (convert c))))"
    by (rule roundsUp_alignToPage)
  then show "roundsUp (PerSyncSize (clampSync (convert c))) (PerSyncSize (adjust c))"
    using assms by (simp add: adjust_sizes_not_Developed)
qed

theorem adjust_aligns_sizes_witness:
  "\<not> Developed oddWrite
    \<and> PerWriteSize (convert oddWrite) = 525312 \<and> PerWriteSize (adjust oddWrite) = 528384
    \<and> roundsUp (PerWriteSize (convert oddWrite)) (PerWriteSize (adjust oddWrite))
    \<and> PerSyncSize (clampSync (convert oddWrite)) = 1050624
    \<and> PerSyncSize (adjust oddWrite) = 1052672
    \<and> roundsUp (PerSyncSize (clampSync (convert oddWrite))) (PerSyncSize (adjust oddWrite))
    \<and> MaxSize (adjust oddWrite) = 134217728
    \<and> sint (MaxSize (adjust oddWrite)) mod 4096 = 0"
proof -
  have d: "\<not> Developed oddWrite" by (simp add: oddWrite_def)
  have v: "PerWriteSize (convert oddWrite) = 525312" "PerWriteSize (adjust oddWrite) = 528384"
    "PerSyncSize (clampSync (convert oddWrite)) = 1050624"
    "PerSyncSize (adjust oddWrite) = 1052672" "MaxSize (adjust oddWrite) = 134217728"
    by (simp_all add: oddWrite_def stages_defs consts_defs alignToPage_numeral)
  have b: "sint (PerWriteSize (convert oddWrite)) \<le> 2 ^ 63 - 4096"
    "sint (PerSyncSize (clampSync (convert oddWrite))) \<le> 2 ^ 63 - 4096"
    by (simp_all add: v)
  note th = adjust_aligns_sizes [OF d]
  have 1: "roundsUp (PerWriteSize (convert oddWrite)) (PerWriteSize (adjust oddWrite))"
    using th b(1) by blast
  have 2: "roundsUp (PerSyncSize (clampSync (convert oddWrite))) (PerSyncSize (adjust oddWrite))"
    using th b(2) by blast
  have 3: "sint (MaxSize (adjust oddWrite)) mod 4096 = 0"
    using th by blast
  show ?thesis by (intro conjI d v 1 2 3)
qed

text \<open>
  C5 as stated fails on overflow: a \<open>PerWriteSize\<close> of \<open>2 ^ 53 - 1\<close> KB converts to
  \<open>2 ^ 63 - 1024\<close>, and adding \<open>pageSize - 1\<close> wraps, so that the aligned value is \<open>- 2 ^ 63\<close>:
  a multiple of 4096, but below the value it was to round up.
\<close>

theorem write_size_not_rounded_up:
  "\<not> Developed hugeWrite
    \<and> \<not> roundsUp (PerWriteSize (convert hugeWrite)) (PerWriteSize (adjust hugeWrite))"
  by (simp add: hugeWrite_def stages_defs consts_defs alignToPage_numeral roundsUp_def)

text \<open>
  Both bounds hold whenever \<open>PerWriteSize < 2 ^ 52 - 1\<close>.
\<close>

lemma in_range_alignable:
  assumes "\<not> Developed c" "sint (PerWriteSize c) < 2 ^ 52 - 1"
  shows "sint (PerWriteSize (convert c)) \<le> 2 ^ 63 - 4096"
    "sint (PerSyncSize (clampSync (convert c))) \<le> 2 ^ 63 - 4096"
proof -
  have w: "0 < sint (PerWriteSize (convert c))"
    "2 * sint (PerWriteSize (convert c)) \<le> 2 ^ 63 - 4096"
    using assms by (rule convert_PerWriteSize_in_range)+
  then show "sint (PerWriteSize (convert c)) \<le> 2 ^ 63 - 4096" by simp
  from w have "- (2 ^ 62) \<le> sint (PerWriteSize (convert c))"
    "sint (PerWriteSize (convert c)) < 2 ^ 62"
    by simp_all
  then have "sint (2 * PerWriteSize (convert c)) = 2 * sint (PerWriteSize (convert c))"
    by (rule sint_double)
  moreover have "sint (PerSyncSize (convert c)) \<le> 2 ^ 63 - 4096"
    using assms(1) by (rule sint_convert_PerSyncSize)
  ultimately show "sint (PerSyncSize (clampSync (convert c))) \<le> 2 ^ 63 - 4096"
    using w(2) by (simp add: clampSync_cases)
qed

text \<open>
  C6. A configuration whose four numeric fields are zero gets the defaults: 128 MiB for
  \<open>MaxSize\<close>, 4 for \<open>MaxBackups\<close>, 64 KiB for \<open>PerWriteSize\<close> and 16 MiB for \<open>PerSyncSize\<close>.
  The values are already there after the first stage, before the alignment, and they are
  the result of \<open>adjust\<close> whether \<open>Developed\<close> is set or not.
\<close>

theorem adjust_zero_defaults:
  assumes "MaxSize c = 0" "MaxBackups c = 0" "PerWriteSize c = 0" "PerSyncSize c = 0"
  shows "(MaxSize (convert c) = 134217728 \<and> MaxBackups (convert c) = 4
      \<and> PerWriteSize (convert c) = 65536 \<and> PerSyncSize (convert c) = 16777216)
    \<and> (MaxSize (adjust c) = 134217728 \<and> MaxBackups (adjust c) = 4
      \<and> PerWriteSize (adjust c) = 65536 \<and> PerSyncSize (adjust c) = 16777216)"
proof -
  have conv: "MaxSize (convert c) = 134217728" "MaxBackups (convert c) = 4"
    "PerWriteSize (convert c) = 65536" "PerSyncSize (convert c) = 16777216"
    using assms
    by (simp_all add: convert_MaxSize convert_MaxBackups convert_PerWriteSize
        convert_PerSyncSize consts_defs)
  have "MaxSize (adjust c) = 134217728 \<and> MaxBackups (adjust c) = 4
      \<and> PerWriteSize (adjust c) = 65536 \<and> PerSyncSize (adjust c) = 16777216"
  proof (cases "Developed c")
    case True
    then show ?thesis by (simp add: adjust_Developed conv)
  next
    case False
    have "PerSyncSize (clampSync (convert c)) = 16777216"
      by (simp add: clampSync_def conv)
    then show ?thesis
      using False
      by (simp add: adjust_not_Developed alignSizes_fields clampSync_fields conv
          alignToPage_numeral)
  qed
  with conv show ?thesis by simp
qed

theorem adjust_zero_defaults_witness:
  "MaxSize allZero = 0 \<and> MaxBackups allZero = 0 \<and> PerWriteSize allZero = 0
    \<and> PerSyncSize allZero = 0
    \<and> MaxSize (adjust allZero) = 134217728 \<and> MaxBackups (adjust allZero) = 4
    \<and> PerWriteSize (adjust allZero) = 65536 \<and> PerSyncSize (adjust allZero) = 16777216"
  using adjust_zero_defaults [of allZero] by (simp add: allZero_def)

text \<open>
  C7, amended. When \<open>Developed\<close> is false, the converted write size is below \<open>2 ^ 62\<close> (twice
  it fits in \<open>int64\<close>) and the converted sync size is below twice the converted write size,
  the sync size is first set to exactly twice the converted write size and aligned only
  afterwards: the result is \<open>alignToPage\<close> of twice the converted write size.
\<close>

theorem adjust_sync_forced:
  assumes "\<not> Developed c" "sint (PerWriteSize (convert c)) < 2 ^ 62"
    "sint (PerSyncSize (convert c)) < 2 * sint (PerWriteSize (convert c))"
  shows "PerSyncSize (clampSync (convert c)) = 2 * PerWriteSize (convert c)
    \<and> PerSyncSize (adjust c) = alignToPage (2 * PerWriteSize (convert c))"
proof -
  have "- (2 ^ 63) \<le> sint (PerSyncSize (convert c))"
    using sint_ge [of "PerSyncSize (convert c)"] by simp
  with assms(3) have "- (2 ^ 62) \<le> sint (PerWriteSize (convert c))" by simp
  then have "sint (2 * PerWriteSize (convert c)) = 2 * sint (PerWriteSize (convert c))"
    using assms(2) by (rule sint_double)
  with assms(3) have "PerSyncSize (clampSync (convert c)) = 2 * PerWriteSize (convert c)"
    by (simp add: clampSync_cases)
  then show ?thesis using assms(1) by (simp add: adjust_sizes_not_Developed)
qed

theorem adjust_sync_forced_witness:
  "\<not> Developed oddWrite
    \<and> sint (PerWriteSize (convert oddWrite)) < 2 ^ 62
    \<and> sint (PerSyncSize (convert oddWrite)) < 2 * sint (PerWriteSize (convert oddWrite))
    \<and> PerWriteSize (convert oddWrite) = 525312
    \<and> PerSyncSize (convert oddWrite) = 1048576
    \<and> PerSyncSize (clampSync (convert oddWrite)) = 1050624
    \<and> PerSyncSize (adjust oddWrite) = 1052672"
proof -
  have d: "\<not> Developed oddWrite" by (simp add: oddWrite_def)
  have w: "PerWriteSize (convert oddWrite) = 525312"
    by (simp add: convert_PerWriteSize oddWrite_def consts_defs)
  have s: "PerSyncSize (convert oddWrite) = 1048576"
    by (simp add: convert_PerSyncSize oddWrite_def consts_defs)
  have b: "sint (PerWriteSize (convert oddWrite)) < 2 ^ 62" by (simp add: w)
  have lt: "sint (PerSyncSize (convert oddWrite)) < 2 * sint (PerWriteSize (convert oddWrite))"
    by (simp add: w s)
  show ?thesis
    using adjust_sync_forced [OF d b lt] d b lt by (simp add: w s alignToPage_numeral)
qed

text \<open>
  C7 as stated fails when the doubling wraps: a \<open>PerWriteSize\<close> of \<open>2 ^ 52\<close> KB converts to
  \<open>2 ^ 62\<close>, the default sync size 16777216 is below twice that, but \<open>2*c.PerWriteSize\<close> is
  \<open>- 2 ^ 63\<close> in \<open>int64\<close>, so the comparison of the source is false and the sync size stays
  16777216.
\<close>

theorem sync_not_forced_on_overflow:
  "\<not> Developed wrapDouble
    \<and> sint (PerSyncSize (convert wrapDouble)) < 2 * sint (PerWriteSize (convert wrapDouble))
    \<and> PerSyncSize (adjust wrapDouble) \<noteq> alignToPage (2 * PerWriteSize (convert wrapDouble))"
  by (simp add: wrapDouble_def stages_defs consts_defs alignToPage_numeral)

text \<open>
  The bound on the converted write size holds for every \<open>PerWriteSize < 2 ^ 52\<close>.
\<close>

lemma converted_write_size_below:
  assumes "\<not> Developed c" "sint (PerWriteSize c) < 2 ^ 52"
  shows "sint (PerWriteSize (convert c)) < 2 ^ 62"
proof (cases "sint (PerWriteSize c) \<le> 0")
  case True
  then show ?thesis by (simp add: convert_PerWriteSize sint_defaults)
next
  case False
  then have p: "0 < sint (PerWriteSize c)" by simp
  have "sint (PerWriteSize c * kb) = sint (PerWriteSize c) * sint kb"
    using p assms(2) by (intro sint_mult_in_range) (simp_all add: sint_units)
  with False assms show ?thesis by (simp add: convert_PerWriteSize sint_units)
qed

text \<open>
  C8. \<open>adjust\<close> has no failing path: it contains no division, no indexing and no allocation,
  and Go's integer arithmetic wraps instead of trapping, so the model is a total function
  with no error result. It leaves \<open>OutputPath\<close>, \<open>LocalTime\<close> and \<open>Developed\<close> as they were.
\<close>

theorem adjust_frame:
  "OutputPath (adjust c) = OutputPath c \<and> LocalTime (adjust c) = LocalTime c
    \<and> Developed (adjust c) = Developed c"
  by (cases "Developed c")
    (simp_all add: adjust_Developed adjust_not_Developed convert_frame clampSync_fields
      alignSizes_fields)

text \<open>
  C9. A strictly negative \<open>MaxSize\<close>, \<open>MaxBackups\<close>, \<open>PerWriteSize\<close> or \<open>PerSyncSize\<close> is replaced
  by the default of the field, and the whole result of \<open>adjust\<close> is the one obtained with
  the field set to zero.
\<close>

theorem adjust_negative_as_zero:
  "(sint (MaxSize c) < 0 \<longrightarrow>
      MaxSize (convert c) = 134217728 \<and> adjust c = adjust (c\<lparr>MaxSize := 0\<rparr>))
    \<and> (sint (MaxBackups c) < 0 \<longrightarrow>
      MaxBackups (adjust c) = 4 \<and> adjust c = adjust (c\<lparr>MaxBackups := 0\<rparr>))
    \<and> (sint (PerWriteSize c) < 0 \<longrightarrow>
      PerWriteSize (convert c) = 65536 \<and> adjust c = adjust (c\<lparr>PerWriteSize := 0\<rparr>))
    \<and> (sint (PerSyncSize c) < 0 \<longrightarrow>
      PerSyncSize (convert c) = 16777216 \<and> adjust c = adjust (c\<lparr>PerSyncSize := 0\<rparr>))"
proof (intro conjI impI)
  assume "sint (MaxSize c) < 0"
  then show "MaxSize (convert c) = 134217728"
    by (simp add: convert_MaxSize consts_defs)
next
  assume "sint (MaxBackups c) < 0"
  then show "MaxBackups (adjust c) = 4"
    by (simp add: adjust_MaxBackups convert_MaxBackups consts_defs)
next
  assume "sint (PerWriteSize c) < 0"
  then show "PerWriteSize (convert c) = 65536"
    by (simp add: convert_PerWriteSize consts_defs)
next
  assume "sint (PerSyncSize c) < 0"
  then show "PerSyncSize (convert c) = 16777216"
    by (simp add: convert_PerSyncSize consts_defs)
qed (simp_all only: adjust_negative)

theorem adjust_negative_as_zero_witness:
  "sint (MaxSize allNegative) < 0 \<and> sint (MaxBackups allNegative) < 0
    \<and> sint (PerWriteSize allNegative) < 0 \<and> sint (PerSyncSize allNegative) < 0
    \<and> adjust allNegative = adjust (allNegative\<lparr>MaxSize := 0\<rparr>)
    \<and> adjust allNegative = adjust (allNegative\<lparr>MaxBackups := 0\<rparr>)
    \<and> adjust allNegative = adjust (allNegative\<lparr>PerWriteSize := 0\<rparr>)
    \<and> adjust allNegative = adjust (allNegative\<lparr>PerSyncSize := 0\<rparr>)
    \<and> MaxSize (adjust allNegative) = 134217728 \<and> MaxBackups (adjust allNegative) = 4
    \<and> PerWriteSize (adjust allNegative) = 65536
    \<and> PerSyncSize (adjust allNegative) = 16777216"
proof -
  have neg: "sint (MaxSize allNegative) < 0" "sint (MaxBackups allNegative) < 0"
    "sint (PerWriteSize allNegative) < 0" "sint (PerSyncSize allNegative) < 0"
    by (simp_all add: allNegative_def)
  have vals: "MaxSize (adjust allNegative) = 134217728" "MaxBackups (adjust allNegative) = 4"
    "PerWriteSize (adjust allNegative) = 65536" "PerSyncSize (adjust allNegative) = 16777216"
    by (simp_all add: allNegative_def stages_defs consts_defs alignToPage_numeral)
  note th = adjust_negative_as_zero [of allNegative]
  have e1: "adjust allNegative = adjust (allNegative\<lparr>MaxSize := 0\<rparr>)"
    using th neg(1) by blast
  have e2: "adjust allNegative = adjust (allNegative\<lparr>MaxBackups := 0\<rparr>)"
    using th neg(2) by blast
  have e3: "adjust allNegative = adjust (allNegative\<lparr>PerWriteSize := 0\<rparr>)"
    using th neg(3) by blast
  have e4: "adjust allNegative = adjust (allNegative\<lparr>PerSyncSize := 0\<rparr>)"
    using th neg(4) by blast
  show ?thesis
    by (intro conjI neg vals e1 e2 e3 e4)
qed

text \<open>
  C10. With \<open>Developed\<close> set, positive sizes come out of \<open>adjust\<close> exactly as they went in:
  no unit is applied, nothing is aligned, and the sync size is not raised to twice the
  write size (the example has write size 3 and sync size 5).
\<close>

theorem adjust_relaxed_verbatim:
  assumes "Developed c" "0 < sint (MaxSize c)" "0 < sint (PerWriteSize c)"
    "0 < sint (PerSyncSize c)"
  shows "MaxSize (adjust c) = MaxSize c \<and> PerWriteSize (adjust c) = PerWriteSize c
    \<and> PerSyncSize (adjust c) = PerSyncSize c"
  using assms
  by (simp add: adjust_Developed convert_MaxSize convert_PerWriteSize convert_PerSyncSize)

theorem adjust_relaxed_verbatim_witness:
  "Developed relaxedTiny \<and> 0 < sint (MaxSize relaxedTiny) \<and> 0 < sint (PerWriteSize relaxedTiny)
    \<and> 0 < sint (PerSyncSize relaxedTiny)
    \<and> MaxSize (adjust relaxedTiny) = 9 \<and> PerWriteSize (adjust relaxedTiny) = 3
    \<and> PerSyncSize (adjust relaxedTiny) = 5"
  using adjust_relaxed_verbatim [of relaxedTiny] by (simp add: relaxedTiny_def)

end
